theory Spec2Isabelle
  imports Main "HOL-Library.Word"
begin

section \<open>Data model of dohproxy.go\<close>

text \<open>
  Wire bytes are \<open>[]byte\<close>. A Go \<open>error\<close> is represented by the text that
  \<open>%v\<close> prints for it, since the program only ever tests an error against
  \<open>nil\<close> and prints it.
\<close>

type_synonym bytes = "8 word list"

type_synonym go_error = string

text \<open>\<open>const ( TCP int = iota; UDP )\<close>\<close>

definition TCP :: int where
  "TCP = 0"

definition UDP :: int where
  "UDP = 1"

text \<open>
  The parts of \<open>net/http\<close> the handler touches. A request carries its method, its
  URL, its header map and its body; a response carries its status code and what
  \<open>io.ReadAll\<close> obtains from its body (the bytes, or a read error).
\<close>

record http_request =
  Method :: string
  URL :: string
  Header :: "string \<rightharpoonup> string list"
  Body :: bytes

record http_response =
  StatusCode :: int
  RespBody :: "go_error + bytes"

text \<open>
  What \<open>client.Do\<close> returns: a response with a \<open>nil\<close> error, or a non-\<open>nil\<close>
  error together with a response pointer that is normally \<open>nil\<close> (it is non-\<open>nil\<close>
  only when a redirect policy fails).
\<close>

datatype do_result = DoOk http_response | DoErr "http_response option" go_error

text \<open>
  The HTTP client talks to the network, so a call consumes and returns the state
  \<open>'w\<close> of the outside world.
\<close>

type_synonym 'w http_client = "'w \<Rightarrow> http_request \<Rightarrow> do_result \<times> 'w"

text \<open>
  The library operations the handler calls, taken as parameters: \<open>Msg.Pack\<close> and
  \<open>Msg.Unpack\<close> of the DNS library, and URL parsing, the only step of
  \<open>http.NewRequest\<close> that can fail for the method \<open>POST\<close>.
\<close>

record 'msg extern =
  Pack :: "'msg \<Rightarrow> go_error + bytes"
  Unpack :: "bytes \<Rightarrow> go_error + 'msg"
  url_Parse_error :: "string \<Rightarrow> go_error option"

text \<open>\<open>type DoHProxy struct\<close>\<close>

record 'w DoHProxy =
  listenAddress :: string
  port :: string
  upstreamURLs :: "string list"
  protocols :: "int list"
  client :: "'w http_client"
  logRequests :: bool

text \<open>
  \<open>NewDoHProxy\<close>: the client it builds (HTTP/2 transport, five second timeout) is
  represented by the behaviour \<open>transport\<close> of that client on the network.
\<close>

definition NewDoHProxy ::
  "'w http_client \<Rightarrow> string \<Rightarrow> string \<Rightarrow> string list \<Rightarrow> int list \<Rightarrow> bool \<Rightarrow> 'w DoHProxy" where
  "NewDoHProxy transport la po us ps lg =
     \<lparr>listenAddress = la, port = po, upstreamURLs = us, protocols = ps,
      client = transport, logRequests = lg\<rparr>"

section \<open>HandleDNSRequest\<close>

text \<open>
  \<open>http.NewRequest(method, url, body)\<close> returns \<open>(nil, err)\<close> when the URL does
  not parse, and otherwise a request with an empty header map.
\<close>

definition NewRequest :: "'msg extern \<Rightarrow> string \<Rightarrow> string \<Rightarrow> bytes \<Rightarrow> go_error + http_request" where
  "NewRequest ex method url body =
     (case url_Parse_error ex url of
        Some e \<Rightarrow> Inl e
      | None \<Rightarrow> Inr \<lparr>Method = method, URL = url, Header = Map.empty, Body = body\<rparr>)"

text \<open>
  \<open>req.Header.Set(key, value)\<close> replaces the values stored under the key. Both
  keys the handler uses are already in canonical MIME form.
\<close>

definition Header_Set :: "string \<Rightarrow> string \<Rightarrow> http_request \<Rightarrow> http_request" where
  "Header_Set key v req = req\<lparr>Header := (Header req)(key \<mapsto> [v])\<rparr>"

text \<open>The test of line 74: \<open>err == nil && response.StatusCode == http.StatusOK\<close>.\<close>

definition accepted :: "do_result \<Rightarrow> bool" where
  "accepted res = (case res of DoOk r \<Rightarrow> StatusCode r = 200 | DoErr ro e \<Rightarrow> False)"

text \<open>The response pointer that \<open>client.Do\<close> stores into \<open>response\<close>.\<close>

definition response_of :: "do_result \<Rightarrow> http_response option" where
  "response_of res = (case res of DoOk r \<Rightarrow> Some r | DoErr ro e \<Rightarrow> ro)"

text \<open>
  The variables the loop of lines 68 to 78 updates, with the calls made so far (each
  request with what the client returned for it) and the state of the network.
\<close>

record 'w forwarding =
  response :: "http_response option"
  currentUpstream :: string
  calls :: "(http_request \<times> do_result) list"
  network :: 'w

text \<open>A block of code either runs to its end or panics part way.\<close>

datatype 'a completion = Done 'a | Panic 'a

text \<open>
  The loop over \<open>p.upstreamURLs\<close>. The error of \<open>http.NewRequest\<close> is dropped,
  so when construction fails \<open>req\<close> is \<open>nil\<close> and \<open>req.Header.Set\<close> on line 70
  dereferences it: a run-time panic, before \<open>client.Do\<close> is reached.
\<close>

fun upstream_loop ::
  "'msg extern \<Rightarrow> 'w http_client \<Rightarrow> bytes \<Rightarrow> string list \<Rightarrow> 'w forwarding \<Rightarrow> 'w forwarding completion" where
  "upstream_loop ex cl dnsQuery [] st = Done st"
| "upstream_loop ex cl dnsQuery (upstream # rest) st =
     (case NewRequest ex ''POST'' upstream dnsQuery of
        Inl e \<Rightarrow> Panic st
      | Inr req0 \<Rightarrow>
          (let req = Header_Set ''Accept'' ''application/dns-message''
                       (Header_Set ''Content-Type'' ''application/dns-message'' req0)
           in case cl (network st) req of
                (res, w') \<Rightarrow>
                  (let st' = st\<lparr>response := response_of res,
                                calls := calls st @ [(req, res)],
                                network := w'\<rparr>
                   in if accepted res then Done (st'\<lparr>currentUpstream := upstream\<rparr>)
                      else upstream_loop ex cl dnsQuery rest st')))"

text \<open>
  What the handler sends on the client's \<open>dns.ResponseWriter\<close>:
  \<open>dns.HandleFailed(w, r)\<close> writes a server-failure answer built from the request
  \<open>r\<close>, \<open>w.WriteMsg(m)\<close> writes the message \<open>m\<close>.
\<close>

datatype 'msg reply = HandleFailed 'msg | WriteMsg 'msg

datatype outcome = Returned | Panicked

text \<open>
  One run of the handler: how it ended, the lines it gave to \<open>log\<close> (without the
  time stamp), what it wrote to the client, the upstream calls it made, and the
  network afterwards.
\<close>

record ('w, 'msg) handled =
  outcome :: outcome
  logged :: "string list"
  written :: "'msg reply list"
  attempts :: "(http_request \<times> do_result) list"
  network_after :: 'w

text \<open>The variables of the handler as the loop starts (lines 64 and 65).\<close>

definition initial :: "'w \<Rightarrow> 'w forwarding" where
  "initial w = \<lparr>response = None, currentUpstream = '''', calls = [], network = w\<rparr>"

definition finish ::
  "'w forwarding \<Rightarrow> string list \<Rightarrow> 'msg reply list \<Rightarrow> ('w, 'msg) handled" where
  "finish st ls ws =
     \<lparr>outcome = Returned, logged = ls, written = ws, attempts = calls st,
      network_after = network st\<rparr>"

definition HandleDNSRequest ::
  "'msg extern \<Rightarrow> 'w DoHProxy \<Rightarrow> 'w \<Rightarrow> 'msg \<Rightarrow> ('w, 'msg) handled" where
  "HandleDNSRequest ex p w r =
     (case Pack ex r of
        Inl e \<Rightarrow>
          \<lparr>outcome = Returned, logged = [''Failed to pack DNS request: '' @ e],
           written = [], attempts = [], network_after = w\<rparr>
      | Inr dnsQuery \<Rightarrow>
          (case upstream_loop ex (client p) dnsQuery (upstreamURLs p) (initial w) of
             Panic st \<Rightarrow>
               \<lparr>outcome = Panicked, logged = [], written = [], attempts = calls st,
                network_after = network st\<rparr>
           | Done st \<Rightarrow>
               if currentUpstream st = '''' then
                 finish st (if logRequests p then [''Failed to query any upstream''] else []) []
               else
                 (case response st of
                    None \<Rightarrow> finish st [''All upstream DoH servers failed''] [HandleFailed r]
                  | Some resp \<Rightarrow>
                      (case RespBody resp of
                         Inl e \<Rightarrow>
                           finish st [''Failed to read response from upstream: '' @ e]
                             [HandleFailed r]
                       | Inr body \<Rightarrow>
                           (case Unpack ex body of
                              Inl e \<Rightarrow>
                                finish st [''Failed to unpack DNS response: '' @ e]
                                  [HandleFailed r]
                            | Inr dnsResponse \<Rightarrow>
                                finish st
                                  (if logRequests p
                                   then [''Successfully proxied request through  '' @ currentUpstream st]
                                   else [])
                                  [WriteMsg dnsResponse])))))"

section \<open>Run and main\<close>

text \<open>\<open>net.JoinHostPort\<close>: a host with a colon is taken for an IPv6 literal and bracketed.\<close>

definition JoinHostPort :: "string \<Rightarrow> string \<Rightarrow> string" where
  "JoinHostPort host po =
     (if CHR '':'' \<in> set host
      then ''['' @ host @ '']:'' @ po
      else host @ '':'' @ po)"

text \<open>A listener loop that \<open>Run\<close> starts: a \<open>dns.Server\<close> with its address and net.\<close>

record server =
  Addr :: string
  Net :: string

text \<open>
  The loop of \<open>Run\<close> over \<open>p.protocols\<close>: one \<open>go func\<close> per entry that is
  \<open>TCP\<close> or \<open>UDP\<close>; the \<open>switch\<close> has no default case, so any other value
  starts nothing. The result lists the servers started, in the order of the loop.
\<close>

fun Run_loop :: "'w DoHProxy \<Rightarrow> int list \<Rightarrow> server list" where
  "Run_loop p [] = []"
| "Run_loop p (proto # rest) =
     (if proto = TCP
        then [\<lparr>Addr = JoinHostPort (listenAddress p) (port p), Net = ''tcp''\<rparr>]
      else if proto = UDP
        then [\<lparr>Addr = JoinHostPort (listenAddress p) (port p), Net = ''udp''\<rparr>]
      else []) @ Run_loop p rest"

definition Run :: "'w DoHProxy \<Rightarrow> server list" where
  "Run p = Run_loop p (protocols p)"

text \<open>The values of the command line flags after \<open>flag.Parse\<close>.\<close>

record flags =
  flag_l :: string
  flag_p :: string
  flag_tcp :: bool
  flag_udp :: bool
  flag_log :: bool
  flag_u :: "string list"

text \<open>
  The function given to \<open>flag.Func\<close> for \<open>-u\<close>: it logs the value and appends it
  to \<open>upstreamURLs\<close>. \<open>flag.Parse\<close> calls it once per occurrence, in order.
\<close>

fun add_upstreams :: "string list \<Rightarrow> string list \<times> string list \<Rightarrow> string list \<times> string list" where
  "add_upstreams [] acc = acc"
| "add_upstreams (v # vs) (lg, upstreams) =
     add_upstreams vs (lg @ [''Added '' @ v @ '' as an upstream DoH server''], upstreams @ [v])"

text \<open>Lines 182 to 193 of \<open>main\<close>: which protocols to use.\<close>

definition main_protocols :: "bool \<Rightarrow> bool \<Rightarrow> int list" where
  "main_protocols tcpFlag udpFlag =
     (let protocols0 = [];
          protocols1 = (if tcpFlag then protocols0 @ [TCP] else protocols0);
          protocols2 = (if udpFlag then protocols1 @ [UDP] else protocols1)
      in if \<not> tcpFlag \<and> \<not> udpFlag then [TCP, UDP] else protocols2)"

text \<open>
  What \<open>main\<close> has done when it stops making progress: whether it printed the
  flag defaults, the status it exited with (\<open>None\<close> while \<open>Run\<close> blocks in its
  final \<open>select\<close>), the proxy it built, the servers \<open>Run\<close> started, and the lines
  logged during start-up.
\<close>

record 'w process =
  printed_defaults :: bool
  exit_status :: "int option"
  running :: "'w DoHProxy option"
  servers :: "server list"
  startup_log :: "string list"

definition main :: "'w http_client \<Rightarrow> flags \<Rightarrow> 'w process" where
  "main transport fl =
     (case add_upstreams (flag_u fl) ([], []) of
        (lg, upstreams) \<Rightarrow>
          if length upstreams = 0 then
            \<lparr>printed_defaults = True, exit_status = Some 1, running = None, servers = [],
             startup_log = lg\<rparr>
          else
            (let protos = main_protocols (flag_tcp fl) (flag_udp fl);
                 lg' = (if flag_log fl then lg @ [''Logging requests''] else lg);
                 proxy = NewDoHProxy transport (flag_l fl) (flag_p fl) upstreams protos (flag_log fl)
             in \<lparr>printed_defaults = False, exit_status = None, running = Some proxy,
                 servers = Run proxy, startup_log = lg'\<rparr>))"

section \<open>Notions used to state the properties\<close>

text \<open>
  The request lines 69 to 71 build for one upstream when \<open>http.NewRequest\<close>
  succeeds.
\<close>

definition doh_request :: "bytes \<Rightarrow> string \<Rightarrow> http_request" where
  "doh_request dnsQuery upstream =
     Header_Set ''Accept'' ''application/dns-message''
       (Header_Set ''Content-Type'' ''application/dns-message''
          \<lparr>Method = ''POST'', URL = upstream, Header = Map.empty, Body = dnsQuery\<rparr>)"

text \<open>
  What the HTTP call of each upstream returns when the upstreams are called one after
  the other in configured order, starting from the network state \<open>w\<close>. It serves to
  say which upstream is the first to answer with status 200.
\<close>

fun call_each :: "'w http_client \<Rightarrow> bytes \<Rightarrow> string list \<Rightarrow> 'w \<Rightarrow> do_result list" where
  "call_each cl dnsQuery [] w = []"
| "call_each cl dnsQuery (upstream # rest) w =
     (case cl w (doh_request dnsQuery upstream) of
        (res, w') \<Rightarrow> res # call_each cl dnsQuery rest w')"

section \<open>A test double\<close>

text \<open>
  A stand-in for the libraries and the network, on which the properties below are
  exercised. Messages are their own wire bytes; the empty message does not pack and
  a body shorter than two bytes does not unpack; one URL does not parse. The network
  state counts the calls made. One upstream answers 200 with a good body, one answers
  200 with a body that does not unpack, one answers 200 with a body whose reading
  breaks off, one answers 503, every other one times out.
\<close>

definition demo_extern :: "bytes extern" where
  "demo_extern =
     \<lparr>Pack = (\<lambda>m. if m = [] then Inl ''dns: bad rdata'' else Inr m),
      Unpack = (\<lambda>b. if length b < 2 then Inl ''dns: overflow unpacking uint16'' else Inr b),
      url_Parse_error = (\<lambda>u. if u = ''://nowhere'' then Some ''missing protocol scheme'' else None)\<rparr>"

definition demo_client :: "nat http_client" where
  "demo_client n req =
     (if URL req = ''https://good.test/dns-query''
        then DoOk \<lparr>StatusCode = 200, RespBody = Inr [171, 205, 1, 2]\<rparr>
      else if URL req = ''https://garbled.test/dns-query''
        then DoOk \<lparr>StatusCode = 200, RespBody = Inr [255]\<rparr>
      else if URL req = ''https://busy.test/dns-query''
        then DoOk \<lparr>StatusCode = 503, RespBody = Inr []\<rparr>
      else if URL req = ''https://cutoff.test/dns-query''
        then DoOk \<lparr>StatusCode = 200, RespBody = Inl ''unexpected EOF''\<rparr>
      else DoErr None ''context deadline exceeded'',
      Suc n)"

definition demo_proxy :: "string list \<Rightarrow> bool \<Rightarrow> nat DoHProxy" where
  "demo_proxy us lg = NewDoHProxy demo_client ''127.0.0.1'' ''5353'' us [UDP] lg"

definition demo_flags :: "bool \<Rightarrow> bool \<Rightarrow> string list \<Rightarrow> flags" where
  "demo_flags t u us =
     \<lparr>flag_l = ''127.0.0.1'', flag_p = ''53'', flag_tcp = t, flag_udp = u, flag_log = False,
      flag_u = us\<rparr>"

section \<open>Properties of the upstream loop\<close>

text \<open>One turn of the loop, when the request can be built and when it cannot.\<close>

lemma loop_step_ok:
  "url_Parse_error ex u = None \<Longrightarrow> cl (network st) (doh_request q u) = (res, w') \<Longrightarrow>
   upstream_loop ex cl q (u # rest) st =
     (if accepted res
      then Done (st\<lparr>response := response_of res, calls := calls st @ [(doh_request q u, res)],
                    network := w', currentUpstream := u\<rparr>)
      else upstream_loop ex cl q rest
             (st\<lparr>response := response_of res, calls := calls st @ [(doh_request q u, res)],
                  network := w'\<rparr>))"
  by (simp add: NewRequest_def doh_request_def Let_def)

lemma loop_step_panic:
  "url_Parse_error ex u = Some e \<Longrightarrow> upstream_loop ex cl q (u # rest) st = Panic st"
  by (simp add: NewRequest_def)

lemma loop_first_success:
  "k < length us \<Longrightarrow> \<forall>i\<le>k. url_Parse_error ex (us ! i) = None \<Longrightarrow>
   accepted (call_each cl q us (network st) ! k) \<Longrightarrow>
   \<forall>i<k. \<not> accepted (call_each cl q us (network st) ! i) \<Longrightarrow>
   \<exists>st'. upstream_loop ex cl q us st = Done st' \<and>
     calls st' = calls st @ zip (map (doh_request q) (take (Suc k) us))
                               (take (Suc k) (call_each cl q us (network st))) \<and>
     response st' = response_of (call_each cl q us (network st) ! k) \<and>
     currentUpstream st' = us ! k"
proof (induction us arbitrary: k st)
  case Nil
  then show ?case by simp
next
  case (Cons u rest)
  obtain res w' where c: "cl (network st) (doh_request q u) = (res, w')"
    by (cases "cl (network st) (doh_request q u)")
  from Cons.prems(2) have pu: "url_Parse_error ex u = None" by auto
  have rs: "call_each cl q (u # rest) (network st) = res # call_each cl q rest w'"
    using c by simp
  show ?case
  proof (cases k)
    case 0
    with Cons.prems(3) rs have "accepted res" by simp
    then show ?thesis using 0 rs pu c by (simp add: loop_step_ok del: upstream_loop.simps)
  next
    case (Suc k')
    let ?st = "st\<lparr>response := response_of res, calls := calls st @ [(doh_request q u, res)],
                  network := w'\<rparr>"
    from Cons.prems(4) Suc rs have na: "\<not> accepted res" by auto
    have 1: "k' < length rest" using Cons.prems(1) Suc by simp
    have 2: "\<forall>i\<le>k'. url_Parse_error ex (rest ! i) = None"
      using Cons.prems(2) Suc by auto
    have 3: "accepted (call_each cl q rest (network ?st) ! k')"
      using Cons.prems(3) Suc rs by simp
    have 4: "\<forall>i<k'. \<not> accepted (call_each cl q rest (network ?st) ! i)"
      using Cons.prems(4) Suc rs by auto
    from Cons.IH[OF 1 2 3 4] obtain st' where
      "upstream_loop ex cl q rest ?st = Done st'"
      "calls st' = calls ?st @ zip (map (doh_request q) (take (Suc k') rest))
                               (take (Suc k') (call_each cl q rest (network ?st)))"
      "response st' = response_of (call_each cl q rest (network ?st) ! k')"
      "currentUpstream st' = rest ! k'" by blast
    then show ?thesis using Suc rs pu c na by (simp add: loop_step_ok del: upstream_loop.simps)
  qed
qed

lemma loop_panic_at:
  "j < length us \<Longrightarrow> url_Parse_error ex (us ! j) = Some e \<Longrightarrow>
   \<forall>i<j. url_Parse_error ex (us ! i) = None \<Longrightarrow>
   \<forall>i<j. \<not> accepted (call_each cl q us (network st) ! i) \<Longrightarrow>
   \<exists>st'. upstream_loop ex cl q us st = Panic st' \<and>
     calls st' = calls st @ zip (map (doh_request q) (take j us))
                               (take j (call_each cl q us (network st))) \<and>
     currentUpstream st' = currentUpstream st"
proof (induction us arbitrary: j st)
  case Nil
  then show ?case by simp
next
  case (Cons u rest)
  show ?case
  proof (cases j)
    case 0
    with Cons.prems(2) have "url_Parse_error ex u = Some e" by simp
    then show ?thesis using 0 by (simp add: loop_step_panic del: upstream_loop.simps)
  next
    case (Suc j')
    obtain res w' where c: "cl (network st) (doh_request q u) = (res, w')"
      by (cases "cl (network st) (doh_request q u)")
    have rs: "call_each cl q (u # rest) (network st) = res # call_each cl q rest w'"
      using c by simp
    let ?st = "st\<lparr>response := response_of res, calls := calls st @ [(doh_request q u, res)],
                  network := w'\<rparr>"
    from Cons.prems(3) Suc have pu: "url_Parse_error ex u = None" by auto
    from Cons.prems(4) Suc rs have na: "\<not> accepted res" by auto
    have 1: "j' < length rest" using Cons.prems(1) Suc by simp
    have 2: "url_Parse_error ex (rest ! j') = Some e" using Cons.prems(2) Suc by simp
    have 3: "\<forall>i<j'. url_Parse_error ex (rest ! i) = None" using Cons.prems(3) Suc by auto
    have 4: "\<forall>i<j'. \<not> accepted (call_each cl q rest (network ?st) ! i)"
      using Cons.prems(4) Suc rs by auto
    from Cons.IH[OF 1 2 3 4] obtain st' where
      "upstream_loop ex cl q rest ?st = Panic st'"
      "calls st' = calls ?st @ zip (map (doh_request q) (take j' rest))
                               (take j' (call_each cl q rest (network ?st)))"
      "currentUpstream st' = currentUpstream ?st" by blast
    then show ?thesis using Suc rs pu c na by (simp add: loop_step_ok del: upstream_loop.simps)
  qed
qed


lemma loop_selected:
  "upstream_loop ex cl q us st = Done st' \<Longrightarrow> currentUpstream st' \<noteq> currentUpstream st \<Longrightarrow>
   \<exists>req r. calls st' \<noteq> [] \<and> last (calls st') = (req, DoOk r) \<and> StatusCode r = 200 \<and>
     response st' = Some r \<and> currentUpstream st' = URL req"
proof (induction us arbitrary: st)
  case Nil
  then show ?case by simp
next
  case (Cons u rest)
  show ?case
  proof (cases "url_Parse_error ex u")
    case (Some e)
    with Cons.prems show ?thesis by (simp add: loop_step_panic del: upstream_loop.simps)
  next
    case None
    obtain res w' where c: "cl (network st) (doh_request q u) = (res, w')"
      by (cases "cl (network st) (doh_request q u)")
    let ?st = "st\<lparr>response := response_of res, calls := calls st @ [(doh_request q u, res)],
                  network := w'\<rparr>"
    show ?thesis
    proof (cases "accepted res")
      case True
      then obtain r where r: "res = DoOk r" "StatusCode r = 200"
        by (auto simp add: accepted_def split: do_result.splits)
      from True Cons.prems(1) None c
      have "st' = ?st\<lparr>currentUpstream := u\<rparr>"
        by (simp add: loop_step_ok del: upstream_loop.simps)
      then show ?thesis using r
        by (simp add: response_of_def doh_request_def Header_Set_def)
    next
      case False
      with Cons.prems(1) None c
      have l: "upstream_loop ex cl q rest ?st = Done st'"
        by (simp add: loop_step_ok del: upstream_loop.simps)
      have "currentUpstream st' \<noteq> currentUpstream ?st" using Cons.prems(2) by simp
      from Cons.IH[OF l this] show ?thesis .
    qed
  qed
qed

lemma loop_not_selected:
  "upstream_loop ex cl q us st = Done st' \<Longrightarrow> \<forall>c\<in>set (calls st'). \<not> accepted (snd c) \<Longrightarrow>
   currentUpstream st' = currentUpstream st"
proof (induction us arbitrary: st)
  case Nil
  then show ?case by simp
next
  case (Cons u rest)
  show ?case
  proof (cases "url_Parse_error ex u")
    case (Some e)
    with Cons.prems show ?thesis by (simp add: loop_step_panic del: upstream_loop.simps)
  next
    case None
    obtain res w' where c: "cl (network st) (doh_request q u) = (res, w')"
      by (cases "cl (network st) (doh_request q u)")
    let ?st = "st\<lparr>response := response_of res, calls := calls st @ [(doh_request q u, res)],
                  network := w'\<rparr>"
    show ?thesis
    proof (cases "accepted res")
      case True
      with Cons.prems(1) None c
      have "st' = ?st\<lparr>currentUpstream := u\<rparr>"
        by (simp add: loop_step_ok del: upstream_loop.simps)
      with Cons.prems(2) True show ?thesis by auto
    next
      case False
      with Cons.prems(1) None c
      have l: "upstream_loop ex cl q rest ?st = Done st'"
        by (simp add: loop_step_ok del: upstream_loop.simps)
      from Cons.IH[OF l Cons.prems(2)] show ?thesis by simp
    qed
  qed
qed

lemma add_upstreams_eq:
  "add_upstreams vs (lg, us) =
     (lg @ map (\<lambda>v. ''Added '' @ v @ '' as an upstream DoH server'') vs, us @ vs)"
  by (induction vs arbitrary: lg us) simp_all

lemma doh_request_fields:
  "Method (doh_request q u) = ''POST''" "URL (doh_request q u) = u" "Body (doh_request q u) = q"
  "Header (doh_request q u) ''Content-Type'' = Some [''application/dns-message'']"
  "Header (doh_request q u) ''Accept'' = Some [''application/dns-message'']"
  by (simp_all add: doh_request_def Header_Set_def)

text \<open>The handler, once the result of its loop is known.\<close>

lemma call_each_length: "length (call_each cl q us w) = length us"
  by (induction us arbitrary: w) (auto split: prod.splits)

lemma handled_after_loop:
  "Pack ex r = Inr q \<Longrightarrow> upstream_loop ex (client p) q (upstreamURLs p) (initial w) = Done st \<Longrightarrow>
   outcome (HandleDNSRequest ex p w r) = Returned \<and>
   attempts (HandleDNSRequest ex p w r) = calls st"
  by (simp add: HandleDNSRequest_def finish_def split: option.splits sum.splits)

lemma handled_after_panic:
  "Pack ex r = Inr q \<Longrightarrow> upstream_loop ex (client p) q (upstreamURLs p) (initial w) = Panic st \<Longrightarrow>
   HandleDNSRequest ex p w r =
     \<lparr>outcome = Panicked, logged = [], written = [], attempts = calls st,
      network_after = network st\<rparr>"
  by (simp add: HandleDNSRequest_def)

lemma handled_forwarded:
  "Pack ex r = Inr q \<Longrightarrow> upstream_loop ex (client p) q (upstreamURLs p) (initial w) = Done st \<Longrightarrow>
   currentUpstream st \<noteq> '''' \<Longrightarrow> response st = Some resp \<Longrightarrow> RespBody resp = Inr body \<Longrightarrow>
   Unpack ex body = Inr m \<Longrightarrow>
   written (HandleDNSRequest ex p w r) = [WriteMsg m] \<and>
   logged (HandleDNSRequest ex p w r) =
     (if logRequests p then [''Successfully proxied request through  '' @ currentUpstream st] else [])"
  by (simp add: HandleDNSRequest_def finish_def)

lemma handled_pack_failed:
  "Pack ex r = Inl e \<Longrightarrow>
   HandleDNSRequest ex p w r =
     \<lparr>outcome = Returned, logged = [''Failed to pack DNS request: '' @ e], written = [],
      attempts = [], network_after = w\<rparr>"
  by (simp add: HandleDNSRequest_def)

lemma handled_none_selected:
  "Pack ex r = Inr q \<Longrightarrow> upstream_loop ex (client p) q (upstreamURLs p) (initial w) = Done st \<Longrightarrow>
   currentUpstream st = '''' \<Longrightarrow>
   HandleDNSRequest ex p w r =
     finish st (if logRequests p then [''Failed to query any upstream''] else []) []"
  by (simp add: HandleDNSRequest_def)

lemma handled_read_failed:
  "Pack ex r = Inr q \<Longrightarrow> upstream_loop ex (client p) q (upstreamURLs p) (initial w) = Done st \<Longrightarrow>
   currentUpstream st \<noteq> '''' \<Longrightarrow> response st = Some resp \<Longrightarrow> RespBody resp = Inl e \<Longrightarrow>
   HandleDNSRequest ex p w r =
     finish st [''Failed to read response from upstream: '' @ e] [HandleFailed r]"
  by (simp add: HandleDNSRequest_def)

lemma handled_unpack_failed:
  "Pack ex r = Inr q \<Longrightarrow> upstream_loop ex (client p) q (upstreamURLs p) (initial w) = Done st \<Longrightarrow>
   currentUpstream st \<noteq> '''' \<Longrightarrow> response st = Some resp \<Longrightarrow> RespBody resp = Inr body \<Longrightarrow>
   Unpack ex body = Inl e \<Longrightarrow>
   HandleDNSRequest ex p w r =
     finish st [''Failed to unpack DNS response: '' @ e] [HandleFailed r]"
  by (simp add: HandleDNSRequest_def)

lemma handled_answered:
  "Pack ex r = Inr q \<Longrightarrow> upstream_loop ex (client p) q (upstreamURLs p) (initial w) = Done st \<Longrightarrow>
   currentUpstream st \<noteq> '''' \<Longrightarrow> response st = Some resp \<Longrightarrow> RespBody resp = Inr body \<Longrightarrow>
   Unpack ex body = Inr m \<Longrightarrow>
   HandleDNSRequest ex p w r =
     finish st
       (if logRequests p then [''Successfully proxied request through  '' @ currentUpstream st]
        else [])
       [WriteMsg m]"
  by (simp add: HandleDNSRequest_def)

text \<open>
  Every run of the handler is of one of six kinds. The branch of line 85 is not among
  them: a selected upstream comes with its response.
\<close>

lemma handled_cases:
  obtains
    (pack_failed) e where "Pack ex r = Inl e"
      "HandleDNSRequest ex p w r =
         \<lparr>outcome = Returned, logged = [''Failed to pack DNS request: '' @ e], written = [],
          attempts = [], network_after = w\<rparr>"
  | (panicked) q st where "Pack ex r = Inr q"
      "upstream_loop ex (client p) q (upstreamURLs p) (initial w) = Panic st"
      "HandleDNSRequest ex p w r =
         \<lparr>outcome = Panicked, logged = [], written = [], attempts = calls st,
          network_after = network st\<rparr>"
  | (none_selected) q st where "Pack ex r = Inr q"
      "upstream_loop ex (client p) q (upstreamURLs p) (initial w) = Done st"
      "currentUpstream st = ''''"
      "HandleDNSRequest ex p w r =
         finish st (if logRequests p then [''Failed to query any upstream''] else []) []"
  | (read_failed) q st req resp e where "Pack ex r = Inr q"
      "upstream_loop ex (client p) q (upstreamURLs p) (initial w) = Done st"
      "calls st \<noteq> []" "last (calls st) = (req, DoOk resp)" "StatusCode resp = 200"
      "currentUpstream st = URL req" "RespBody resp = Inl e"
      "HandleDNSRequest ex p w r =
         finish st [''Failed to read response from upstream: '' @ e] [HandleFailed r]"
  | (unpack_failed) q st req resp body e where "Pack ex r = Inr q"
      "upstream_loop ex (client p) q (upstreamURLs p) (initial w) = Done st"
      "calls st \<noteq> []" "last (calls st) = (req, DoOk resp)" "StatusCode resp = 200"
      "currentUpstream st = URL req" "RespBody resp = Inr body" "Unpack ex body = Inl e"
      "HandleDNSRequest ex p w r =
         finish st [''Failed to unpack DNS response: '' @ e] [HandleFailed r]"
  | (answered) q st req resp body m where "Pack ex r = Inr q"
      "upstream_loop ex (client p) q (upstreamURLs p) (initial w) = Done st"
      "calls st \<noteq> []" "last (calls st) = (req, DoOk resp)" "StatusCode resp = 200"
      "currentUpstream st = URL req" "RespBody resp = Inr body" "Unpack ex body = Inr m"
      "HandleDNSRequest ex p w r =
         finish st
           (if logRequests p then [''Successfully proxied request through  '' @ URL req] else [])
           [WriteMsg m]"
proof (cases "Pack ex r")
  case (Inl e)
  from pack_failed[OF Inl handled_pack_failed[OF Inl]] show ?thesis .
next
  case (Inr q)
  show ?thesis
  proof (cases "upstream_loop ex (client p) q (upstreamURLs p) (initial w)")
    case (Panic st)
    from panicked[OF Inr Panic handled_after_panic[OF Inr Panic]] show ?thesis .
  next
    case (Done st)
    show ?thesis
    proof (cases "currentUpstream st = ''''")
      case True
      from none_selected[OF Inr Done True handled_none_selected[OF Inr Done True]]
      show ?thesis .
    next
      case False
      then have "currentUpstream st \<noteq> currentUpstream (initial w)"
        by (simp add: initial_def)
      from loop_selected[OF Done this] obtain req resp where
        ne: "calls st \<noteq> []" and l: "last (calls st) = (req, DoOk resp)"
        and s: "StatusCode resp = 200" and rs: "response st = Some resp"
        and cu: "currentUpstream st = URL req" by blast
      show ?thesis
      proof (cases "RespBody resp")
        case (Inl e)
        from read_failed[OF Inr Done ne l s cu Inl handled_read_failed[OF Inr Done False rs Inl]]
        show ?thesis .
      next
        case body: (Inr body)
        show ?thesis
        proof (cases "Unpack ex body")
          case (Inl e)
          from unpack_failed[OF Inr Done ne l s cu body Inl
              handled_unpack_failed[OF Inr Done False rs body Inl]]
          show ?thesis .
        next
          case m: (Inr m)
          from handled_answered[OF Inr Done False rs body m] cu
          have "HandleDNSRequest ex p w r =
             finish st
               (if logRequests p then [''Successfully proxied request through  '' @ URL req]
                else [])
               [WriteMsg m]" by simp
          from answered[OF Inr Done ne l s cu body m this] show ?thesis .
        qed
      qed
    qed
  qed
qed


text \<open>
  The calls of the loop, whatever its end: those to the first \<open>n\<close> upstreams, for
  some \<open>n\<close>, every one but the last rejected; and all of them when none is accepted.
\<close>

lemma loop_trace:
  "upstream_loop ex cl q us st = Done st' \<or> upstream_loop ex cl q us st = Panic st' \<Longrightarrow>
   \<exists>n\<le>length us.
     calls st' = calls st @ zip (map (doh_request q) (take n us))
                               (take n (call_each cl q us (network st))) \<and>
     (\<forall>i. Suc i < n \<longrightarrow> \<not> accepted (call_each cl q us (network st) ! i))"
proof (induction us arbitrary: st)
  case Nil
  then show ?case by auto
next
  case (Cons u rest)
  show ?case
  proof (cases "url_Parse_error ex u")
    case (Some e)
    with Cons.prems have "st' = st" by (simp add: loop_step_panic del: upstream_loop.simps)
    then show ?thesis by (intro exI[of _ 0]) simp
  next
    case None
    obtain res w' where c: "cl (network st) (doh_request q u) = (res, w')"
      by (cases "cl (network st) (doh_request q u)")
    have rs: "call_each cl q (u # rest) (network st) = res # call_each cl q rest w'"
      using c by simp
    let ?st = "st\<lparr>response := response_of res, calls := calls st @ [(doh_request q u, res)],
                  network := w'\<rparr>"
    show ?thesis
    proof (cases "accepted res")
      case True
      with Cons.prems None c have "st' = ?st\<lparr>currentUpstream := u\<rparr>"
        by (simp add: loop_step_ok del: upstream_loop.simps)
      then show ?thesis using rs by (intro exI[of _ "Suc 0"]) simp
    next
      case False
      with Cons.prems None c
      have "upstream_loop ex cl q rest ?st = Done st' \<or> upstream_loop ex cl q rest ?st = Panic st'"
        by (simp add: loop_step_ok del: upstream_loop.simps)
      from Cons.IH[OF this] obtain n where n: "n \<le> length rest"
        and tr: "calls st' = calls ?st @ zip (map (doh_request q) (take n rest))
                                          (take n (call_each cl q rest (network ?st)))"
        and rej: "\<forall>i. Suc i < n \<longrightarrow> \<not> accepted (call_each cl q rest (network ?st) ! i)"
        by blast
      have "\<forall>i. Suc i < Suc n \<longrightarrow> \<not> accepted (call_each cl q (u # rest) (network st) ! i)"
      proof (intro allI impI)
        fix i
        assume i: "Suc i < Suc n"
        show "\<not> accepted (call_each cl q (u # rest) (network st) ! i)"
        proof (cases i)
          case 0
          with False rs show ?thesis by simp
        next
          case (Suc i')
          with i have "Suc i' < n" by simp
          with rej have "\<not> accepted (call_each cl q rest (network ?st) ! i')" by blast
          with Suc rs show ?thesis by simp
        qed
      qed
      with n tr rs show ?thesis by (intro exI[of _ "Suc n"]) simp
    qed
  qed
qed

lemma loop_all_rejected:
  "\<forall>u\<in>set us. url_Parse_error ex u = None \<Longrightarrow>
   \<forall>res\<in>set (call_each cl q us (network st)). \<not> accepted res \<Longrightarrow>
   \<exists>st'. upstream_loop ex cl q us st = Done st' \<and>
     calls st' = calls st @ zip (map (doh_request q) us) (call_each cl q us (network st)) \<and>
     currentUpstream st' = currentUpstream st"
proof (induction us arbitrary: st)
  case Nil
  then show ?case by simp
next
  case (Cons u rest)
  obtain res w' where c: "cl (network st) (doh_request q u) = (res, w')"
    by (cases "cl (network st) (doh_request q u)")
  have rs: "call_each cl q (u # rest) (network st) = res # call_each cl q rest w'"
    using c by simp
  let ?st = "st\<lparr>response := response_of res, calls := calls st @ [(doh_request q u, res)],
                network := w'\<rparr>"
  from Cons.prems(1) have pu: "url_Parse_error ex u = None" by simp
  from Cons.prems(2) have na: "\<not> accepted res" unfolding rs by simp
  have 1: "\<forall>u\<in>set rest. url_Parse_error ex u = None" using Cons.prems(1) by simp
  have 2: "\<forall>res\<in>set (call_each cl q rest (network ?st)). \<not> accepted res"
    using Cons.prems(2) unfolding rs by simp
  from Cons.IH[OF 1 2] obtain st' where
    "upstream_loop ex cl q rest ?st = Done st'"
    "calls st' = calls ?st @ zip (map (doh_request q) rest) (call_each cl q rest (network ?st))"
    "currentUpstream st' = currentUpstream ?st" by blast
  then show ?case using rs pu c na by (simp add: loop_step_ok del: upstream_loop.simps)
qed

text \<open>
  The calls of any run of the handler: those of the first \<open>n\<close> configured upstreams,
  for some \<open>n\<close>, every one but the last rejected.
\<close>

lemma handled_trace:
  assumes pack: "Pack ex r = Inr q"
  shows "\<exists>n\<le>length (upstreamURLs p).
     attempts (HandleDNSRequest ex p w r) =
       zip (map (doh_request q) (take n (upstreamURLs p)))
           (take n (call_each (client p) q (upstreamURLs p) w)) \<and>
     (\<forall>i. Suc i < n \<longrightarrow> \<not> accepted (call_each (client p) q (upstreamURLs p) w ! i))"
proof -
  let ?l = "upstream_loop ex (client p) q (upstreamURLs p) (initial w)"
  obtain st where st: "?l = Done st \<or> ?l = Panic st" by (cases ?l) auto
  have att: "attempts (HandleDNSRequest ex p w r) = calls st"
  proof (rule disjE[OF st])
    assume l: "?l = Done st"
    from handled_after_loop[OF pack l] show ?thesis by simp
  next
    assume l: "?l = Panic st"
    from handled_after_panic[OF pack l] show ?thesis by simp
  qed
  from loop_trace[OF st] att show ?thesis by (simp add: initial_def)
qed

lemma zip_requests_urls:
  "n \<le> length us \<Longrightarrow>
   map (URL \<circ> fst) (zip (map (doh_request q) (take n us)) (take n (call_each cl q us w))) =
     take n us"
proof -
  assume n: "n \<le> length us"
  let ?tr = "zip (map (doh_request q) (take n us)) (take n (call_each cl q us w))"
  have "map fst ?tr = map (doh_request q) (take n us)"
    using n by (simp add: call_each_length)
  then have "map URL (map fst ?tr) = map URL (map (doh_request q) (take n us))"
    by simp
  then show ?thesis by (simp add: doh_request_fields comp_def)
qed

section \<open>Properties of main\<close>

lemma main_protocols_cases:
  "main_protocols t u =
     (if t \<and> u then [TCP, UDP] else if t then [TCP] else if u then [UDP] else [TCP, UDP])"
  by (simp add: main_protocols_def)

lemma main_running:
  "flag_u fl \<noteq> [] \<Longrightarrow>
   main transport fl =
     \<lparr>printed_defaults = False, exit_status = None,
      running = Some (NewDoHProxy transport (flag_l fl) (flag_p fl) (flag_u fl)
                        (main_protocols (flag_tcp fl) (flag_udp fl)) (flag_log fl)),
      servers = Run (NewDoHProxy transport (flag_l fl) (flag_p fl) (flag_u fl)
                        (main_protocols (flag_tcp fl) (flag_udp fl)) (flag_log fl)),
      startup_log = map (\<lambda>v. ''Added '' @ v @ '' as an upstream DoH server'') (flag_u fl) @
                    (if flag_log fl then [''Logging requests''] else [])\<rparr>"
  by (simp add: main_def add_upstreams_eq Let_def)

lemma main_exits:
  "flag_u fl = [] \<Longrightarrow>
   main transport fl =
     \<lparr>printed_defaults = True, exit_status = Some 1, running = None, servers = [],
      startup_log = []\<rparr>"
  by (simp add: main_def)

section \<open>Evaluation on the test double\<close>

text \<open>The equations that evaluate a run of the handler on the test double.\<close>

lemmas demo_eval =
  HandleDNSRequest_def demo_extern_def demo_proxy_def demo_client_def NewDoHProxy_def
  NewRequest_def Header_Set_def accepted_def response_of_def initial_def finish_def Let_def

section \<open>The claims\<close>

text \<open>
  C1. In every run of the handler the calls made are those to the first \<open>n\<close>
  configured upstreams, for some \<open>n\<close>: one call per configured entry, in configured
  order, each with the request of lines 69 to 71 and the result the call has. So no
  entry is ever called twice (and no URL, when the configured URLs are distinct), and
  every call but the last was rejected. When every request can be built and every
  call is rejected, each configured upstream is called exactly once.

  Let the request pack to \<open>q\<close>, and let upstream \<open>k\<close> (counting from 0) be the
  first whose HTTP call is answered with status 200 and no error, the calls of the
  upstreams up to \<open>k\<close> being those the handler can build. Then the handler returns, and
  the calls it makes are exactly the calls to the upstreams 0 to \<open>k\<close>: nothing is
  called after \<open>k\<close>. The loop ends with \<open>response\<close> holding the response of
  upstream \<open>k\<close> and \<open>currentUpstream\<close> its URL, and that response is the one
  unpacked and written to the client (line 79 takes an empty \<open>currentUpstream\<close> for
  no upstream at all, hence the condition on the URL).
\<close>

theorem first_success_stops_forwarding:
  "length (attempts (HandleDNSRequest ex p w r)) \<le> length (upstreamURLs p) \<and>
   map (URL \<circ> fst) (attempts (HandleDNSRequest ex p w r)) =
     take (length (attempts (HandleDNSRequest ex p w r))) (upstreamURLs p) \<and>
   (\<forall>q'. Pack ex r = Inr q' \<longrightarrow>
      attempts (HandleDNSRequest ex p w r) =
        zip (map (doh_request q')
               (take (length (attempts (HandleDNSRequest ex p w r))) (upstreamURLs p)))
            (take (length (attempts (HandleDNSRequest ex p w r)))
               (call_each (client p) q' (upstreamURLs p) w))) \<and>
   (\<forall>i. Suc i < length (attempts (HandleDNSRequest ex p w r)) \<longrightarrow>
      \<not> accepted (snd (attempts (HandleDNSRequest ex p w r) ! i))) \<and>
   (distinct (upstreamURLs p) \<longrightarrow>
      distinct (map (URL \<circ> fst) (attempts (HandleDNSRequest ex p w r)))) \<and>
   (Pack ex r = Inr q \<longrightarrow>
    (\<forall>u\<in>set (upstreamURLs p). url_Parse_error ex u = None) \<longrightarrow>
    (\<forall>res\<in>set (call_each (client p) q (upstreamURLs p) w). \<not> accepted res) \<longrightarrow>
      outcome (HandleDNSRequest ex p w r) = Returned \<and>
      attempts (HandleDNSRequest ex p w r) =
        zip (map (doh_request q) (upstreamURLs p)) (call_each (client p) q (upstreamURLs p) w) \<and>
      map (URL \<circ> fst) (attempts (HandleDNSRequest ex p w r)) = upstreamURLs p) \<and>
   (Pack ex r = Inr q \<longrightarrow> k < length (upstreamURLs p) \<longrightarrow>
    (\<forall>i\<le>k. url_Parse_error ex (upstreamURLs p ! i) = None) \<longrightarrow>
    accepted (call_each (client p) q (upstreamURLs p) w ! k) \<longrightarrow>
    (\<forall>i<k. \<not> accepted (call_each (client p) q (upstreamURLs p) w ! i)) \<longrightarrow>
      outcome (HandleDNSRequest ex p w r) = Returned \<and>
      attempts (HandleDNSRequest ex p w r) =
        zip (map (doh_request q) (take (Suc k) (upstreamURLs p)))
            (take (Suc k) (call_each (client p) q (upstreamURLs p) w)) \<and>
      map (URL \<circ> fst) (attempts (HandleDNSRequest ex p w r)) = take (Suc k) (upstreamURLs p) \<and>
      length (attempts (HandleDNSRequest ex p w r)) = Suc k \<and>
      (\<exists>st. upstream_loop ex (client p) q (upstreamURLs p) (initial w) = Done st \<and>
            response st = response_of (call_each (client p) q (upstreamURLs p) w ! k) \<and>
            currentUpstream st = upstreamURLs p ! k \<and>
            calls st = attempts (HandleDNSRequest ex p w r)) \<and>
      (distinct (upstreamURLs p) \<longrightarrow>
         distinct (map (URL \<circ> fst) (attempts (HandleDNSRequest ex p w r)))) \<and>
      (upstreamURLs p ! k \<noteq> '''' \<longrightarrow>
         (\<forall>resp body m. call_each (client p) q (upstreamURLs p) w ! k = DoOk resp \<longrightarrow>
            RespBody resp = Inr body \<longrightarrow> Unpack ex body = Inr m \<longrightarrow>
            written (HandleDNSRequest ex p w r) = [WriteMsg m])))"
proof -
  let ?us = "upstreamURLs p"
  let ?h = "HandleDNSRequest ex p w r"
  let ?n = "length (attempts ?h)"
  have every:
    "?n \<le> length ?us \<and>
     map (URL \<circ> fst) (attempts ?h) = take ?n ?us \<and>
     (\<forall>q'. Pack ex r = Inr q' \<longrightarrow>
        attempts ?h = zip (map (doh_request q') (take ?n ?us))
                          (take ?n (call_each (client p) q' ?us w))) \<and>
     (\<forall>i. Suc i < ?n \<longrightarrow> \<not> accepted (snd (attempts ?h ! i)))"
  proof (cases "Pack ex r")
    case (Inl e)
    from handled_pack_failed[OF Inl, of p w] have a0: "attempts ?h = []" by simp
    have 1: "?n \<le> length ?us" using a0 by simp
    have 2: "map (URL \<circ> fst) (attempts ?h) = take ?n ?us" using a0 by simp
    have 3: "\<forall>q'. Pack ex r = Inr q' \<longrightarrow>
        attempts ?h = zip (map (doh_request q') (take ?n ?us))
                          (take ?n (call_each (client p) q' ?us w))"
      using Inl by simp
    have 4: "\<forall>i. Suc i < ?n \<longrightarrow> \<not> accepted (snd (attempts ?h ! i))" using a0 by simp
    show ?thesis by (intro conjI 1 2 3 4)
  next
    case (Inr q0)
    let ?rs = "call_each (client p) q0 ?us w"
    from handled_trace[OF Inr, of p w] obtain n where n: "n \<le> length ?us"
      and tr: "attempts ?h = zip (map (doh_request q0) (take n ?us)) (take n ?rs)"
      and rej: "\<forall>i. Suc i < n \<longrightarrow> \<not> accepted (?rs ! i)"
      by blast
    have len: "n = ?n" using n tr by (simp add: call_each_length)
    have urls: "map (URL \<circ> fst) (attempts ?h) = take n ?us"
      using tr zip_requests_urls[OF n] by simp
    have nth: "snd (attempts ?h ! i) = ?rs ! i" if "i < n" for i
      using that n tr by (simp add: call_each_length)
    have rej': "\<forall>i. Suc i < n \<longrightarrow> \<not> accepted (snd (attempts ?h ! i))"
    proof (intro allI impI)
      fix i
      assume i: "Suc i < n"
      then have "i < n" by simp
      from nth[OF this] rej i show "\<not> accepted (snd (attempts ?h ! i))" by simp
    qed
    have tr': "\<forall>q'. Pack ex r = Inr q' \<longrightarrow>
        attempts ?h = zip (map (doh_request q') (take n ?us))
                          (take n (call_each (client p) q' ?us w))"
    proof (intro allI impI)
      fix q'
      assume "Pack ex r = Inr q'"
      with Inr have "q' = q0" by simp
      with tr show "attempts ?h = zip (map (doh_request q') (take n ?us))
                          (take n (call_each (client p) q' ?us w))" by simp
    qed
    have "n \<le> length ?us \<and>
     map (URL \<circ> fst) (attempts ?h) = take n ?us \<and>
     (\<forall>q'. Pack ex r = Inr q' \<longrightarrow>
        attempts ?h = zip (map (doh_request q') (take n ?us))
                          (take n (call_each (client p) q' ?us w))) \<and>
     (\<forall>i. Suc i < n \<longrightarrow> \<not> accepted (snd (attempts ?h ! i)))"
      by (intro conjI n urls tr' rej')
    then show ?thesis unfolding len .
  qed
  have e1: "?n \<le> length ?us" and e2: "map (URL \<circ> fst) (attempts ?h) = take ?n ?us"
    and e3: "\<forall>q'. Pack ex r = Inr q' \<longrightarrow>
        attempts ?h = zip (map (doh_request q') (take ?n ?us))
                          (take ?n (call_each (client p) q' ?us w))"
    and e4: "\<forall>i. Suc i < ?n \<longrightarrow> \<not> accepted (snd (attempts ?h ! i))"
    using every by blast+
  have dist: "distinct ?us \<longrightarrow> distinct (map (URL \<circ> fst) (attempts ?h))"
  proof
    assume "distinct ?us"
    then have "distinct (take ?n ?us)" by (rule distinct_take)
    with e2 show "distinct (map (URL \<circ> fst) (attempts ?h))" by simp
  qed
  have exhausted: "Pack ex r = Inr q \<longrightarrow>
    (\<forall>u\<in>set ?us. url_Parse_error ex u = None) \<longrightarrow>
    (\<forall>res\<in>set (call_each (client p) q ?us w). \<not> accepted res) \<longrightarrow>
      outcome ?h = Returned \<and>
      attempts ?h = zip (map (doh_request q) ?us) (call_each (client p) q ?us w) \<and>
      map (URL \<circ> fst) (attempts ?h) = ?us"
  proof (intro impI)
    assume pack: "Pack ex r = Inr q"
      and built: "\<forall>u\<in>set ?us. url_Parse_error ex u = None"
      and rej: "\<forall>res\<in>set (call_each (client p) q ?us w). \<not> accepted res"
    have rej': "\<forall>res\<in>set (call_each (client p) q ?us (network (initial w))). \<not> accepted res"
      using rej by (simp add: initial_def)
    from loop_all_rejected[OF built rej'] obtain st where
      loop: "upstream_loop ex (client p) q ?us (initial w) = Done st"
      and tr: "calls st = zip (map (doh_request q) ?us) (call_each (client p) q ?us w)"
      by (auto simp add: initial_def)
    from handled_after_loop[OF pack loop]
    have out: "outcome ?h = Returned" and att: "attempts ?h = calls st" by simp_all
    have "map (URL \<circ> fst) (zip (map (doh_request q) (take (length ?us) ?us))
            (take (length ?us) (call_each (client p) q ?us w))) = take (length ?us) ?us"
      by (rule zip_requests_urls) simp
    then have urls: "map (URL \<circ> fst) (attempts ?h) = ?us"
      using att tr by (simp add: call_each_length)
    from out att tr urls
    show "outcome ?h = Returned \<and>
      attempts ?h = zip (map (doh_request q) ?us) (call_each (client p) q ?us w) \<and>
      map (URL \<circ> fst) (attempts ?h) = ?us" by simp
  qed
  have first_ok: "Pack ex r = Inr q \<longrightarrow> k < length ?us \<longrightarrow>
    (\<forall>i\<le>k. url_Parse_error ex (?us ! i) = None) \<longrightarrow>
    accepted (call_each (client p) q ?us w ! k) \<longrightarrow>
    (\<forall>i<k. \<not> accepted (call_each (client p) q ?us w ! i)) \<longrightarrow>
      outcome ?h = Returned \<and>
      attempts ?h = zip (map (doh_request q) (take (Suc k) ?us))
                        (take (Suc k) (call_each (client p) q ?us w)) \<and>
      map (URL \<circ> fst) (attempts ?h) = take (Suc k) ?us \<and>
      length (attempts ?h) = Suc k \<and>
      (\<exists>st. upstream_loop ex (client p) q ?us (initial w) = Done st \<and>
            response st = response_of (call_each (client p) q ?us w ! k) \<and>
            currentUpstream st = ?us ! k \<and>
            calls st = attempts ?h) \<and>
      (distinct ?us \<longrightarrow> distinct (map (URL \<circ> fst) (attempts ?h))) \<and>
      (?us ! k \<noteq> '''' \<longrightarrow>
         (\<forall>resp body m. call_each (client p) q ?us w ! k = DoOk resp \<longrightarrow>
            RespBody resp = Inr body \<longrightarrow> Unpack ex body = Inr m \<longrightarrow>
            written ?h = [WriteMsg m]))"
  proof (intro impI)
    let ?rs = "call_each (client p) q ?us w"
    let ?tr = "zip (map (doh_request q) (take (Suc k) ?us)) (take (Suc k) ?rs)"
    assume pack: "Pack ex r = Inr q" and k: "k < length ?us"
      and built: "\<forall>i\<le>k. url_Parse_error ex (?us ! i) = None"
      and ok: "accepted (?rs ! k)"
      and first: "\<forall>i<k. \<not> accepted (?rs ! i)"
    have ok': "accepted (call_each (client p) q ?us (network (initial w)) ! k)"
      using ok by (simp add: initial_def)
    have first': "\<forall>i<k. \<not> accepted (call_each (client p) q ?us (network (initial w)) ! i)"
      using first by (simp add: initial_def)
    from loop_first_success[OF k built ok' first'] obtain st where
      loop: "upstream_loop ex (client p) q ?us (initial w) = Done st"
      and tr: "calls st = ?tr"
      and resp: "response st = response_of (?rs ! k)"
      and cur: "currentUpstream st = ?us ! k"
      by (auto simp add: initial_def)
    from handled_after_loop[OF pack loop]
    have out: "outcome ?h = Returned" and att: "attempts ?h = calls st" by simp_all
    have len: "length ?tr = Suc k"
      using k by (simp add: call_each_length)
    have sk: "Suc k \<le> length ?us" using k by simp
    have urls: "map (URL \<circ> fst) ?tr = take (Suc k) ?us"
      by (rule zip_requests_urls[OF sk])
    have fwd: "?us ! k \<noteq> '''' \<longrightarrow>
         (\<forall>resp body m. ?rs ! k = DoOk resp \<longrightarrow> RespBody resp = Inr body \<longrightarrow>
            Unpack ex body = Inr m \<longrightarrow> written ?h = [WriteMsg m])"
    proof (intro impI allI)
      fix resp body m
      assume ne: "?us ! k \<noteq> ''''" and r: "?rs ! k = DoOk resp"
        and b: "RespBody resp = Inr body" and u: "Unpack ex body = Inr m"
      have c: "currentUpstream st \<noteq> ''''" using ne cur by simp
      have s: "response st = Some resp" using resp r by (simp add: response_of_def)
      from handled_forwarded[OF pack loop c s b u] show "written ?h = [WriteMsg m]" by simp
    qed
    have sel: "\<exists>st. upstream_loop ex (client p) q ?us (initial w) = Done st \<and>
            response st = response_of (?rs ! k) \<and> currentUpstream st = ?us ! k \<and>
            calls st = attempts ?h"
      using loop resp cur att by auto
    from out att tr len urls sel dist fwd
    show "outcome ?h = Returned \<and>
      attempts ?h = ?tr \<and>
      map (URL \<circ> fst) (attempts ?h) = take (Suc k) ?us \<and>
      length (attempts ?h) = Suc k \<and>
      (\<exists>st. upstream_loop ex (client p) q ?us (initial w) = Done st \<and>
            response st = response_of (?rs ! k) \<and>
            currentUpstream st = ?us ! k \<and>
            calls st = attempts ?h) \<and>
      (distinct ?us \<longrightarrow> distinct (map (URL \<circ> fst) (attempts ?h))) \<and>
      (?us ! k \<noteq> '''' \<longrightarrow>
         (\<forall>resp body m. ?rs ! k = DoOk resp \<longrightarrow>
            RespBody resp = Inr body \<longrightarrow> Unpack ex body = Inr m \<longrightarrow>
            written ?h = [WriteMsg m]))" by simp
  qed
  show ?thesis by (intro conjI e1 e2 e3 e4 dist exhausted first_ok)
qed

text \<open>
  C1 on the test double: of three upstreams the first times out and the second
  answers 200, so \<open>k = 1\<close>; the third is never called and the client gets the
  second one's answer. Of two upstreams that both fail, each is called once.
\<close>

theorem first_success_stops_forwarding_witness:
  "map (URL \<circ> fst)
     (attempts (HandleDNSRequest demo_extern
        (demo_proxy [''https://bad.invalid/dns-query'', ''https://good.test/dns-query'',
                     ''https://busy.test/dns-query''] True) 0 [1, 2, 3])) =
     [''https://bad.invalid/dns-query'', ''https://good.test/dns-query''] \<and>
   written (HandleDNSRequest demo_extern
        (demo_proxy [''https://bad.invalid/dns-query'', ''https://good.test/dns-query'',
                     ''https://busy.test/dns-query''] True) 0 [1, 2, 3]) =
     [WriteMsg [171, 205, 1, 2]] \<and>
   map (URL \<circ> fst)
     (attempts (HandleDNSRequest demo_extern
        (demo_proxy [''https://bad.invalid/dns-query'', ''https://busy.test/dns-query''] True)
        0 [1, 2, 3])) =
     [''https://bad.invalid/dns-query'', ''https://busy.test/dns-query'']"
proof -
  let ?p = "demo_proxy [''https://bad.invalid/dns-query'', ''https://good.test/dns-query'',
                        ''https://busy.test/dns-query''] True"
  let ?p2 = "demo_proxy [''https://bad.invalid/dns-query'', ''https://busy.test/dns-query''] True"
  have pack: "Pack demo_extern [1, 2, 3] = Inr [1, 2, 3]"
    by (simp add: demo_extern_def)
  have k: "1 < length (upstreamURLs ?p)"
    by (simp add: demo_proxy_def NewDoHProxy_def)
  have built: "\<forall>i\<le>1. url_Parse_error demo_extern (upstreamURLs ?p ! i) = None"
    by (auto simp add: demo_extern_def demo_proxy_def NewDoHProxy_def le_Suc_eq)
  have rs: "call_each (client ?p) [1, 2, 3] (upstreamURLs ?p) 0 =
      [DoErr None ''context deadline exceeded'',
       DoOk \<lparr>StatusCode = 200, RespBody = Inr [171, 205, 1, 2]\<rparr>,
       DoOk \<lparr>StatusCode = 503, RespBody = Inr []\<rparr>]"
    by (simp add: demo_proxy_def NewDoHProxy_def demo_client_def doh_request_def Header_Set_def)
  have ok: "accepted (call_each (client ?p) [1, 2, 3] (upstreamURLs ?p) 0 ! 1)"
    by (simp add: rs accepted_def)
  have first: "\<forall>i<1. \<not> accepted (call_each (client ?p) [1, 2, 3] (upstreamURLs ?p) 0 ! i)"
    by (simp add: rs accepted_def)
  have ne: "upstreamURLs ?p ! 1 \<noteq> ''''"
    by (simp add: demo_proxy_def NewDoHProxy_def)
  have un: "Unpack demo_extern [171, 205, 1, 2] = Inr [171, 205, 1, 2]"
    by (simp add: demo_extern_def)
  note t = first_success_stops_forwarding[where ex = demo_extern and p = ?p
      and q = "[1, 2, 3]" and k = 1 and w = 0 and r = "[1, 2, 3]"]
  from t pack k built ok first
  have a: "map (URL \<circ> fst) (attempts (HandleDNSRequest demo_extern ?p 0 [1, 2, 3])) =
      take (Suc 1) (upstreamURLs ?p)" by blast
  from t pack k built ok first
  have "upstreamURLs ?p ! 1 \<noteq> '''' \<longrightarrow>
     (\<forall>resp body m. call_each (client ?p) [1, 2, 3] (upstreamURLs ?p) 0 ! 1 = DoOk resp \<longrightarrow>
        RespBody resp = Inr body \<longrightarrow> Unpack demo_extern body = Inr m \<longrightarrow>
        written (HandleDNSRequest demo_extern ?p 0 [1, 2, 3]) = [WriteMsg m])" by blast
  with ne rs un
  have b: "written (HandleDNSRequest demo_extern ?p 0 [1, 2, 3]) = [WriteMsg [171, 205, 1, 2]]"
    by simp
  have built2: "\<forall>u\<in>set (upstreamURLs ?p2). url_Parse_error demo_extern u = None"
    by (simp add: demo_extern_def demo_proxy_def NewDoHProxy_def)
  have rej2: "\<forall>res\<in>set (call_each (client ?p2) [1, 2, 3] (upstreamURLs ?p2) 0). \<not> accepted res"
    by (simp add: demo_proxy_def NewDoHProxy_def demo_client_def doh_request_def Header_Set_def
        accepted_def)
  from first_success_stops_forwarding[where ex = demo_extern and p = ?p2
      and q = "[1, 2, 3]" and w = 0 and r = "[1, 2, 3]"] pack built2 rej2
  have c: "map (URL \<circ> fst) (attempts (HandleDNSRequest demo_extern ?p2 0 [1, 2, 3])) =
      upstreamURLs ?p2" by blast
  from a b c show ?thesis by (simp add: demo_proxy_def NewDoHProxy_def)
qed

text \<open>
  C2. The claim asks that, when every upstream fails, the client receives a generic
  DNS failure answer. The handler does not do so: with one upstream that times out and
  one that answers 503, both calls are rejected, the handler logs one line and returns,
  and nothing is written to the client. The call of \<open>dns.HandleFailed\<close> that lines
  85 to 89 hold for this case is never reached, because line 83 has returned already.
\<close>

theorem exhaustion_sends_no_reply:
  "map (accepted \<circ> snd) (attempts (HandleDNSRequest demo_extern
      (demo_proxy [''https://bad.invalid/dns-query'', ''https://busy.test/dns-query''] True)
      0 [1, 2, 3])) = [False, False] \<and>
   outcome (HandleDNSRequest demo_extern
      (demo_proxy [''https://bad.invalid/dns-query'', ''https://busy.test/dns-query''] True)
      0 [1, 2, 3]) = Returned \<and>
   written (HandleDNSRequest demo_extern
      (demo_proxy [''https://bad.invalid/dns-query'', ''https://busy.test/dns-query''] True)
      0 [1, 2, 3]) = [] \<and>
   logged (HandleDNSRequest demo_extern
      (demo_proxy [''https://bad.invalid/dns-query'', ''https://busy.test/dns-query''] True)
      0 [1, 2, 3]) = [''Failed to query any upstream'']"
  by (simp add: demo_eval)

text \<open>
  C3. When the request does not pack, the handler contacts no upstream, as the claim
  says: the network is left untouched. It then logs the error and returns without
  writing anything to the client, where the claim asks for a generic failure answer
  (as the read and unpack failures of lines 94 to 106 send one).
\<close>

theorem pack_failure_sends_no_reply:
  "Pack demo_extern [] = Inl ''dns: bad rdata'' \<and>
   attempts (HandleDNSRequest demo_extern
      (demo_proxy [''https://good.test/dns-query''] True) 0 []) = [] \<and>
   network_after (HandleDNSRequest demo_extern
      (demo_proxy [''https://good.test/dns-query''] True) 0 []) = 0 \<and>
   written (HandleDNSRequest demo_extern
      (demo_proxy [''https://good.test/dns-query''] True) 0 []) = [] \<and>
   logged (HandleDNSRequest demo_extern
      (demo_proxy [''https://good.test/dns-query''] True) 0 []) =
     [''Failed to pack DNS request: dns: bad rdata'']"
  by (simp add: demo_eval)

text \<open>
  C4. A body that does not unpack and the failure of every upstream are not handled
  alike: after the first the client is sent a failure answer by \<open>dns.HandleFailed\<close>,
  after the second it is sent nothing. Neither run panics.
\<close>

theorem malformed_body_differs_from_exhaustion:
  "written (HandleDNSRequest demo_extern
      (demo_proxy [''https://garbled.test/dns-query''] True) 0 [1, 2, 3]) =
     [HandleFailed [1, 2, 3]] \<and>
   logged (HandleDNSRequest demo_extern
      (demo_proxy [''https://garbled.test/dns-query''] True) 0 [1, 2, 3]) =
     [''Failed to unpack DNS response: dns: overflow unpacking uint16''] \<and>
   outcome (HandleDNSRequest demo_extern
      (demo_proxy [''https://garbled.test/dns-query''] True) 0 [1, 2, 3]) = Returned \<and>
   written (HandleDNSRequest demo_extern
      (demo_proxy [''https://busy.test/dns-query''] True) 0 [1, 2, 3]) = [] \<and>
   logged (HandleDNSRequest demo_extern
      (demo_proxy [''https://busy.test/dns-query''] True) 0 [1, 2, 3]) =
     [''Failed to query any upstream'']"
  by (simp add: demo_eval)

text \<open>
  C5, as stated, does not hold: with request logging disabled, a response body that
  does not unpack and a request that does not pack are each logged with one line.
\<close>

theorem failure_logs_ignore_flag_counterexample:
  "\<not> logRequests (demo_proxy [''https://garbled.test/dns-query''] False) \<and>
   logged (HandleDNSRequest demo_extern (demo_proxy [''https://garbled.test/dns-query''] False)
             0 [1, 2, 3]) =
     [''Failed to unpack DNS response: dns: overflow unpacking uint16''] \<and>
   logged (HandleDNSRequest demo_extern (demo_proxy [''https://garbled.test/dns-query''] False)
             0 []) =
     [''Failed to pack DNS request: dns: bad rdata'']"
  by (simp add: demo_eval)

text \<open>
  C5, amended. A run of the handler logs at most one line. With request logging
  enabled, every run that returns logs exactly one line: on success the line naming
  the upstream that served the request, otherwise a line noting the failure. With
  request logging disabled, nothing is logged on success and nothing when no upstream
  is accepted; but a failure to pack the request, to read the accepted response or to
  unpack it is logged with one line whatever the flag says.

  The last but one conjunct derives the line from its cause: when upstream \<open>k\<close> is
  the first to answer with status 200 and no error, a body that cannot be read gives
  the read-failure line and a body that does not unpack gives the unpack-failure
  line, both whatever the flag says, and a body that unpacks gives the line naming
  upstream \<open>k\<close> if and only if request logging is enabled. A run that panics logs
  nothing.
\<close>

theorem logging_by_outcome:
  "length (logged (HandleDNSRequest ex p w r)) \<le> 1 \<and>
   (logRequests p \<longrightarrow> outcome (HandleDNSRequest ex p w r) = Returned \<longrightarrow>
      length (logged (HandleDNSRequest ex p w r)) = 1) \<and>
   (\<forall>m. written (HandleDNSRequest ex p w r) = [WriteMsg m] \<longrightarrow>
      attempts (HandleDNSRequest ex p w r) \<noteq> [] \<and>
      logged (HandleDNSRequest ex p w r) =
        (if logRequests p
         then [''Successfully proxied request through  '' @
                 URL (fst (last (attempts (HandleDNSRequest ex p w r))))]
         else [])) \<and>
   (\<forall>q. Pack ex r = Inr q \<longrightarrow> outcome (HandleDNSRequest ex p w r) = Returned \<longrightarrow>
      (\<forall>c\<in>set (attempts (HandleDNSRequest ex p w r)). \<not> accepted (snd c)) \<longrightarrow>
      logged (HandleDNSRequest ex p w r) =
        (if logRequests p then [''Failed to query any upstream''] else [])) \<and>
   (\<forall>e. Pack ex r = Inl e \<longrightarrow>
      logged (HandleDNSRequest ex p w r) = [''Failed to pack DNS request: '' @ e]) \<and>
   (written (HandleDNSRequest ex p w r) = [HandleFailed r] \<longrightarrow>
      (\<exists>e. logged (HandleDNSRequest ex p w r) = [''Failed to read response from upstream: '' @ e] \<or>
           logged (HandleDNSRequest ex p w r) = [''Failed to unpack DNS response: '' @ e])) \<and>
   (\<forall>q k resp. Pack ex r = Inr q \<longrightarrow> k < length (upstreamURLs p) \<longrightarrow>
      (\<forall>i\<le>k. url_Parse_error ex (upstreamURLs p ! i) = None) \<longrightarrow>
      call_each (client p) q (upstreamURLs p) w ! k = DoOk resp \<longrightarrow>
      StatusCode resp = 200 \<longrightarrow>
      (\<forall>i<k. \<not> accepted (call_each (client p) q (upstreamURLs p) w ! i)) \<longrightarrow>
      upstreamURLs p ! k \<noteq> '''' \<longrightarrow>
        (\<forall>e. RespBody resp = Inl e \<longrightarrow>
           logged (HandleDNSRequest ex p w r) =
             [''Failed to read response from upstream: '' @ e]) \<and>
        (\<forall>body e. RespBody resp = Inr body \<longrightarrow> Unpack ex body = Inl e \<longrightarrow>
           logged (HandleDNSRequest ex p w r) = [''Failed to unpack DNS response: '' @ e]) \<and>
        (\<forall>body m. RespBody resp = Inr body \<longrightarrow> Unpack ex body = Inr m \<longrightarrow>
           logged (HandleDNSRequest ex p w r) =
             (if logRequests p
              then [''Successfully proxied request through  '' @ upstreamURLs p ! k]
              else []))) \<and>
   (outcome (HandleDNSRequest ex p w r) = Panicked \<longrightarrow>
      logged (HandleDNSRequest ex p w r) = [])"
proof -
  let ?h = "HandleDNSRequest ex p w r"
  let ?us = "upstreamURLs p"
  have a: "length (logged ?h) \<le> 1"
    by (cases rule: handled_cases[of ex r p w]) (simp_all add: finish_def)
  have b: "logRequests p \<longrightarrow> outcome ?h = Returned \<longrightarrow> length (logged ?h) = 1"
    by (cases rule: handled_cases[of ex r p w]) (simp_all add: finish_def)
  have c: "\<forall>m. written ?h = [WriteMsg m] \<longrightarrow> attempts ?h \<noteq> [] \<and>
      logged ?h = (if logRequests p
         then [''Successfully proxied request through  '' @ URL (fst (last (attempts ?h)))]
         else [])"
    by (cases rule: handled_cases[of ex r p w]) (simp_all add: finish_def)
  have d: "\<forall>q. Pack ex r = Inr q \<longrightarrow> outcome ?h = Returned \<longrightarrow>
      (\<forall>c\<in>set (attempts ?h). \<not> accepted (snd c)) \<longrightarrow>
      logged ?h = (if logRequests p then [''Failed to query any upstream''] else [])"
  proof (intro allI impI)
    fix q
    assume pack: "Pack ex r = Inr q" and out: "outcome ?h = Returned"
      and rej: "\<forall>c\<in>set (attempts ?h). \<not> accepted (snd c)"
    let ?l = "upstream_loop ex (client p) q (upstreamURLs p) (initial w)"
    from out pack obtain st where l: "?l = Done st"
      by (cases ?l) (auto simp add: handled_after_panic)
    from handled_after_loop[OF pack l] rej
    have "\<forall>c\<in>set (calls st). \<not> accepted (snd c)" by simp
    from loop_not_selected[OF l this] have cu: "currentUpstream st = ''''"
      by (simp add: initial_def)
    from handled_none_selected[OF pack l cu]
    show "logged ?h = (if logRequests p then [''Failed to query any upstream''] else [])"
      by (simp add: finish_def)
  qed
  have e: "\<forall>e. Pack ex r = Inl e \<longrightarrow> logged ?h = [''Failed to pack DNS request: '' @ e]"
  proof (intro allI impI)
    fix e
    assume pk: "Pack ex r = Inl e"
    from handled_pack_failed[OF pk, of p w]
    show "logged ?h = [''Failed to pack DNS request: '' @ e]" by simp
  qed
  have f: "written ?h = [HandleFailed r] \<longrightarrow>
      (\<exists>e. logged ?h = [''Failed to read response from upstream: '' @ e] \<or>
           logged ?h = [''Failed to unpack DNS response: '' @ e])"
    by (cases rule: handled_cases[of ex r p w]) (simp_all add: finish_def)
  have g: "\<forall>q k resp. Pack ex r = Inr q \<longrightarrow> k < length ?us \<longrightarrow>
      (\<forall>i\<le>k. url_Parse_error ex (?us ! i) = None) \<longrightarrow>
      call_each (client p) q ?us w ! k = DoOk resp \<longrightarrow>
      StatusCode resp = 200 \<longrightarrow>
      (\<forall>i<k. \<not> accepted (call_each (client p) q ?us w ! i)) \<longrightarrow>
      ?us ! k \<noteq> '''' \<longrightarrow>
        (\<forall>e. RespBody resp = Inl e \<longrightarrow>
           logged ?h = [''Failed to read response from upstream: '' @ e]) \<and>
        (\<forall>body e. RespBody resp = Inr body \<longrightarrow> Unpack ex body = Inl e \<longrightarrow>
           logged ?h = [''Failed to unpack DNS response: '' @ e]) \<and>
        (\<forall>body m. RespBody resp = Inr body \<longrightarrow> Unpack ex body = Inr m \<longrightarrow>
           logged ?h =
             (if logRequests p
              then [''Successfully proxied request through  '' @ ?us ! k]
              else []))"
  proof (intro allI impI)
    fix q k resp
    let ?rs = "call_each (client p) q ?us w"
    assume pack: "Pack ex r = Inr q" and k: "k < length ?us"
      and built: "\<forall>i\<le>k. url_Parse_error ex (?us ! i) = None"
      and rk: "?rs ! k = DoOk resp" and status: "StatusCode resp = 200"
      and first: "\<forall>i<k. \<not> accepted (?rs ! i)"
      and ne: "?us ! k \<noteq> ''''"
    have ok': "accepted (call_each (client p) q ?us (network (initial w)) ! k)"
      using rk status by (simp add: initial_def accepted_def)
    have first': "\<forall>i<k. \<not> accepted (call_each (client p) q ?us (network (initial w)) ! i)"
      using first by (simp add: initial_def)
    from loop_first_success[OF k built ok' first'] obtain st where
      loop: "upstream_loop ex (client p) q ?us (initial w) = Done st"
      and resp: "response st = response_of (?rs ! k)"
      and cur: "currentUpstream st = ?us ! k"
      by (auto simp add: initial_def)
    have cu: "currentUpstream st \<noteq> ''''" using ne cur by simp
    have rs: "response st = Some resp" using resp rk by (simp add: response_of_def)
    have 1: "\<forall>e. RespBody resp = Inl e \<longrightarrow>
           logged ?h = [''Failed to read response from upstream: '' @ e]"
    proof (intro allI impI)
      fix e
      assume b: "RespBody resp = Inl e"
      from handled_read_failed[OF pack loop cu rs b]
      show "logged ?h = [''Failed to read response from upstream: '' @ e]"
        by (simp add: finish_def)
    qed
    have 2: "\<forall>body e. RespBody resp = Inr body \<longrightarrow> Unpack ex body = Inl e \<longrightarrow>
           logged ?h = [''Failed to unpack DNS response: '' @ e]"
    proof (intro allI impI)
      fix body e
      assume b: "RespBody resp = Inr body" and u: "Unpack ex body = Inl e"
      from handled_unpack_failed[OF pack loop cu rs b u]
      show "logged ?h = [''Failed to unpack DNS response: '' @ e]"
        by (simp add: finish_def)
    qed
    have 3: "\<forall>body m. RespBody resp = Inr body \<longrightarrow> Unpack ex body = Inr m \<longrightarrow>
           logged ?h =
             (if logRequests p
              then [''Successfully proxied request through  '' @ ?us ! k]
              else [])"
    proof (intro allI impI)
      fix body m
      assume b: "RespBody resp = Inr body" and u: "Unpack ex body = Inr m"
      from handled_answered[OF pack loop cu rs b u] cur
      show "logged ?h =
             (if logRequests p
              then [''Successfully proxied request through  '' @ ?us ! k]
              else [])"
        by (simp add: finish_def)
    qed
    show "(\<forall>e. RespBody resp = Inl e \<longrightarrow>
           logged ?h = [''Failed to read response from upstream: '' @ e]) \<and>
        (\<forall>body e. RespBody resp = Inr body \<longrightarrow> Unpack ex body = Inl e \<longrightarrow>
           logged ?h = [''Failed to unpack DNS response: '' @ e]) \<and>
        (\<forall>body m. RespBody resp = Inr body \<longrightarrow> Unpack ex body = Inr m \<longrightarrow>
           logged ?h =
             (if logRequests p
              then [''Successfully proxied request through  '' @ ?us ! k]
              else []))"
      by (intro conjI 1 2 3)
  qed
  have h: "outcome ?h = Panicked \<longrightarrow> logged ?h = []"
    by (cases rule: handled_cases[of ex r p w]) (simp_all add: finish_def)
  show ?thesis by (intro conjI a b c d e f g h)
qed

text \<open>
  C5 on the test double: the same successful request with logging enabled and
  disabled, and a response whose body cannot be read, with logging disabled.
\<close>

theorem logging_by_outcome_witness:
  "logged (HandleDNSRequest demo_extern
      (demo_proxy [''https://bad.invalid/dns-query'', ''https://good.test/dns-query''] True)
      0 [1, 2, 3]) =
     [''Successfully proxied request through  https://good.test/dns-query''] \<and>
   logged (HandleDNSRequest demo_extern
      (demo_proxy [''https://bad.invalid/dns-query'', ''https://good.test/dns-query''] False)
      0 [1, 2, 3]) = [] \<and>
   logged (HandleDNSRequest demo_extern
      (demo_proxy [''https://cutoff.test/dns-query''] False) 0 [1, 2, 3]) =
     [''Failed to read response from upstream: unexpected EOF'']"
proof -
  let ?us = "[''https://bad.invalid/dns-query'', ''https://good.test/dns-query'']"
  let ?h = "\<lambda>lg. HandleDNSRequest demo_extern (demo_proxy ?us lg) 0 [1, 2, 3]"
  let ?pc = "demo_proxy [''https://cutoff.test/dns-query''] False"
  have wr: "written (?h lg) = [WriteMsg [171, 205, 1, 2]]" for lg
    by (simp add: demo_eval)
  have url: "URL (fst (last (attempts (?h lg)))) = ''https://good.test/dns-query''" for lg
    by (simp add: demo_eval)
  have lg: "logRequests (demo_proxy ?us lg) = lg" for lg
    by (simp add: demo_proxy_def NewDoHProxy_def)
  from logging_by_outcome[where ex = demo_extern and p = "demo_proxy ?us True" and w = 0
      and r = "[1, 2, 3]"] wr[of True]
  have "logged (?h True) =
      (if logRequests (demo_proxy ?us True)
       then [''Successfully proxied request through  '' @ URL (fst (last (attempts (?h True))))]
       else [])" by blast
  then have t: "logged (?h True) =
      [''Successfully proxied request through  https://good.test/dns-query'']"
    by (simp add: url lg)
  from logging_by_outcome[where ex = demo_extern and p = "demo_proxy ?us False" and w = 0
      and r = "[1, 2, 3]"] wr[of False]
  have "logged (?h False) =
      (if logRequests (demo_proxy ?us False)
       then [''Successfully proxied request through  '' @ URL (fst (last (attempts (?h False))))]
       else [])" by blast
  then have f: "logged (?h False) = []"
    by (simp add: lg)
  have pack: "Pack demo_extern [1, 2, 3] = Inr [1, 2, 3]"
    by (simp add: demo_extern_def)
  have k: "0 < length (upstreamURLs ?pc)"
    by (simp add: demo_proxy_def NewDoHProxy_def)
  have built: "\<forall>i\<le>0. url_Parse_error demo_extern (upstreamURLs ?pc ! i) = None"
    by (simp add: demo_extern_def demo_proxy_def NewDoHProxy_def)
  have rk: "call_each (client ?pc) [1, 2, 3] (upstreamURLs ?pc) 0 ! 0 =
      DoOk \<lparr>StatusCode = 200, RespBody = Inl ''unexpected EOF''\<rparr>"
    by (simp add: demo_proxy_def NewDoHProxy_def demo_client_def doh_request_def Header_Set_def)
  have status: "StatusCode \<lparr>StatusCode = 200, RespBody = Inl ''unexpected EOF''\<rparr> = 200"
    by simp
  have first: "\<forall>i<0. \<not> accepted (call_each (client ?pc) [1, 2, 3] (upstreamURLs ?pc) 0 ! i)"
    by simp
  have ne: "upstreamURLs ?pc ! 0 \<noteq> ''''"
    by (simp add: demo_proxy_def NewDoHProxy_def)
  have body: "RespBody \<lparr>StatusCode = 200, RespBody = Inl ''unexpected EOF''\<rparr> =
      Inl ''unexpected EOF''"
    by simp
  note tc = logging_by_outcome[where ex = demo_extern and p = ?pc and w = 0
      and r = "[1, 2, 3]"]
  note g = tc[THEN conjunct2, THEN conjunct2, THEN conjunct2, THEN conjunct2, THEN conjunct2,
      THEN conjunct2, THEN conjunct1]
  note g1 = g[THEN spec, THEN spec, THEN spec, THEN mp, OF pack, THEN mp, OF k, THEN mp,
      OF built, THEN mp, OF rk, THEN mp, OF status, THEN mp, OF first, THEN mp, OF ne]
  note g2 = g1[THEN conjunct1, THEN spec, THEN mp, OF body]
  from g2 have c: "logged (HandleDNSRequest demo_extern ?pc 0 [1, 2, 3]) =
      [''Failed to read response from upstream: unexpected EOF'']"
    by simp
  from t f c show ?thesis by simp
qed



text \<open>
  C7. With neither \<open>-tcp\<close> nor \<open>-udp\<close> the protocols are TCP and UDP, and for no
  combination of the two flags is the list empty. When at least one upstream is
  configured, \<open>main\<close> runs a proxy with these protocols and \<open>Run\<close> starts their
  servers: the UDP server alone for \<open>-udp\<close> only, the TCP server alone for
  \<open>-tcp\<close> only, and both otherwise.
\<close>

theorem protocols_default_to_both:
  "main_protocols False False = [TCP, UDP] \<and>
   main_protocols tcpFlag udpFlag \<noteq> [] \<and>
   (flag_u fl \<noteq> [] \<longrightarrow>
      (\<exists>proxy. running (main transport fl) = Some proxy \<and>
         protocols proxy = main_protocols (flag_tcp fl) (flag_udp fl) \<and>
         servers (main transport fl) = Run proxy) \<and>
      map Net (servers (main transport fl)) =
        (if flag_tcp fl \<and> \<not> flag_udp fl then [''tcp'']
         else if flag_udp fl \<and> \<not> flag_tcp fl then [''udp'']
         else [''tcp'', ''udp'']))"
proof (intro conjI impI)
  show "main_protocols False False = [TCP, UDP]"
    by (simp add: main_protocols_cases)
  show "main_protocols tcpFlag udpFlag \<noteq> []"
    by (simp add: main_protocols_cases)
next
  assume u: "flag_u fl \<noteq> []"
  show "\<exists>proxy. running (main transport fl) = Some proxy \<and>
         protocols proxy = main_protocols (flag_tcp fl) (flag_udp fl) \<and>
         servers (main transport fl) = Run proxy"
    by (simp add: main_running[OF u] NewDoHProxy_def)
  show "map Net (servers (main transport fl)) =
        (if flag_tcp fl \<and> \<not> flag_udp fl then [''tcp'']
         else if flag_udp fl \<and> \<not> flag_tcp fl then [''udp'']
         else [''tcp'', ''udp''])"
    by (simp add: main_running[OF u] NewDoHProxy_def Run_def main_protocols_cases TCP_def UDP_def)
qed

text \<open>C7 on three command lines with one upstream each.\<close>

theorem protocols_default_to_both_witness:
  "map Net (servers (main demo_client (demo_flags False True [''https://good.test/dns-query'']))) =
     [''udp''] \<and>
   map Net (servers (main demo_client (demo_flags True False [''https://good.test/dns-query'']))) =
     [''tcp''] \<and>
   map Net (servers (main demo_client (demo_flags False False [''https://good.test/dns-query'']))) =
     [''tcp'', ''udp'']"
proof -
  have u: "flag_u (demo_flags t u [''https://good.test/dns-query'']) \<noteq> []" for t u
    by (simp add: demo_flags_def)
  have f: "flag_tcp (demo_flags t u us) = t" "flag_udp (demo_flags t u us) = u" for t u us
    by (simp_all add: demo_flags_def)
  from protocols_default_to_both[where fl = "demo_flags False True [''https://good.test/dns-query'']"
      and transport = demo_client] u
  have 1: "map Net (servers (main demo_client
      (demo_flags False True [''https://good.test/dns-query'']))) = [''udp'']"
    by (simp add: f)
  from protocols_default_to_both[where fl = "demo_flags True False [''https://good.test/dns-query'']"
      and transport = demo_client] u
  have 2: "map Net (servers (main demo_client
      (demo_flags True False [''https://good.test/dns-query'']))) = [''tcp'']"
    by (simp add: f)
  from protocols_default_to_both[where fl = "demo_flags False False [''https://good.test/dns-query'']"
      and transport = demo_client] u
  have 3: "map Net (servers (main demo_client
      (demo_flags False False [''https://good.test/dns-query'']))) = [''tcp'', ''udp'']"
    by (simp add: f)
  from 1 2 3 show ?thesis by simp
qed

text \<open>
  C8. Without any \<open>-u\<close> value \<open>main\<close> prints the flag defaults and exits with
  status 1, having built no proxy and started no server. Whenever a proxy runs, its
  upstream list is the non-empty list of \<open>-u\<close> values; and servers are started only
  for such a proxy.
\<close>

theorem no_upstream_exits_before_listening:
  "(flag_u fl = [] \<longrightarrow>
      printed_defaults (main transport fl) \<and> exit_status (main transport fl) = Some 1 \<and>
      running (main transport fl) = None \<and> servers (main transport fl) = []) \<and>
   (\<forall>proxy. running (main transport fl) = Some proxy \<longrightarrow>
      upstreamURLs proxy = flag_u fl \<and> upstreamURLs proxy \<noteq> [] \<and>
      exit_status (main transport fl) = None) \<and>
   (servers (main transport fl) \<noteq> [] \<longrightarrow>
      (\<exists>proxy. running (main transport fl) = Some proxy \<and> upstreamURLs proxy \<noteq> []))"
proof (cases "flag_u fl = []")
  case True
  then show ?thesis by (simp add: main_exits)
next
  case False
  then show ?thesis by (simp add: main_running NewDoHProxy_def)
qed

text \<open>C8 on a command line with both protocol flags and no upstream.\<close>

theorem no_upstream_exits_before_listening_witness:
  "printed_defaults (main demo_client (demo_flags True True [])) \<and>
   exit_status (main demo_client (demo_flags True True [])) = Some 1 \<and>
   servers (main demo_client (demo_flags True True [])) = []"
proof -
  have u: "flag_u (demo_flags True True []) = []"
    by (simp add: demo_flags_def)
  from no_upstream_exits_before_listening[where fl = "demo_flags True True []"
      and transport = demo_client] u
  show ?thesis by blast
qed

text \<open>
  C9. When the loop ends with a non-empty \<open>currentUpstream\<close>, \<open>response\<close> is not
  \<open>nil\<close>. So the branch of line 85 is never taken: no run logs
  \<open>All upstream DoH servers failed\<close>. When every call is rejected the handler takes
  the return of line 83 instead: it writes nothing to the client and logs its one line
  only if request logging is enabled.
\<close>

theorem selected_upstream_has_response:
  "(\<forall>st. upstream_loop ex (client p) q (upstreamURLs p) (initial w) = Done st \<longrightarrow>
        currentUpstream st \<noteq> '''' \<longrightarrow> response st \<noteq> None) \<and>
   ''All upstream DoH servers failed'' \<notin> set (logged (HandleDNSRequest ex p w r)) \<and>
   (Pack ex r = Inr q \<longrightarrow> outcome (HandleDNSRequest ex p w r) = Returned \<longrightarrow>
    (\<forall>c\<in>set (attempts (HandleDNSRequest ex p w r)). \<not> accepted (snd c)) \<longrightarrow>
      written (HandleDNSRequest ex p w r) = [] \<and>
      logged (HandleDNSRequest ex p w r) =
        (if logRequests p then [''Failed to query any upstream''] else []))"
proof (intro conjI allI impI)
  fix st
  assume l: "upstream_loop ex (client p) q (upstreamURLs p) (initial w) = Done st"
    and c: "currentUpstream st \<noteq> ''''"
  from c have "currentUpstream st \<noteq> currentUpstream (initial w)" by (simp add: initial_def)
  from loop_selected[OF l this] show "response st \<noteq> None" by auto
next
  show "''All upstream DoH servers failed'' \<notin> set (logged (HandleDNSRequest ex p w r))"
    by (cases rule: handled_cases[of ex r p w]) (simp_all add: finish_def)
next
  assume pack: "Pack ex r = Inr q"
    and out: "outcome (HandleDNSRequest ex p w r) = Returned"
    and rej: "\<forall>c\<in>set (attempts (HandleDNSRequest ex p w r)). \<not> accepted (snd c)"
  let ?l = "upstream_loop ex (client p) q (upstreamURLs p) (initial w)"
  from out pack obtain st where l: "?l = Done st"
    by (cases ?l) (auto simp add: handled_after_panic)
  from handled_after_loop[OF pack l] rej
  have "\<forall>c\<in>set (calls st). \<not> accepted (snd c)" by simp
  from loop_not_selected[OF l this] have cu: "currentUpstream st = ''''"
    by (simp add: initial_def)
  from handled_none_selected[OF pack l cu]
  show "written (HandleDNSRequest ex p w r) = []"
    and "logged (HandleDNSRequest ex p w r) =
        (if logRequests p then [''Failed to query any upstream''] else [])"
    by (simp_all add: finish_def)
qed

text \<open>C9 on the test double: two upstreams, both rejected.\<close>

theorem selected_upstream_has_response_witness:
  "written (HandleDNSRequest demo_extern
      (demo_proxy [''https://bad.invalid/dns-query'', ''https://busy.test/dns-query''] True)
      0 [1, 2, 3]) = [] \<and>
   logged (HandleDNSRequest demo_extern
      (demo_proxy [''https://bad.invalid/dns-query'', ''https://busy.test/dns-query''] True)
      0 [1, 2, 3]) = [''Failed to query any upstream'']"
proof -
  let ?p = "demo_proxy [''https://bad.invalid/dns-query'', ''https://busy.test/dns-query''] True"
  let ?h = "HandleDNSRequest demo_extern ?p 0 [1, 2, 3]"
  have pack: "Pack demo_extern [1, 2, 3] = Inr [1, 2, 3]"
    by (simp add: demo_extern_def)
  have out: "outcome ?h = Returned"
    by (simp add: demo_eval)
  have rej: "\<forall>c\<in>set (attempts ?h). \<not> accepted (snd c)"
    by (simp add: demo_eval)
  have lg: "logRequests ?p"
    by (simp add: demo_proxy_def NewDoHProxy_def)
  from selected_upstream_has_response[where ex = demo_extern and p = ?p and q = "[1, 2, 3]"
      and w = 0 and r = "[1, 2, 3]"] pack out rej
  have "written ?h = [] \<and>
      logged ?h = (if logRequests ?p then [''Failed to query any upstream''] else [])"
    by blast
  with lg show ?thesis by simp
qed

text \<open>
  C10, as stated, does not hold in one respect: the HTTP client is not invoked with a
  \<open>nil\<close> request. When the first URL does not parse the handler panics having made
  no call at all; the network is untouched.
\<close>

theorem nil_request_never_sent_counterexample:
  "url_Parse_error demo_extern ''://nowhere'' = Some ''missing protocol scheme'' \<and>
   outcome (HandleDNSRequest demo_extern
      (demo_proxy [''://nowhere'', ''https://good.test/dns-query''] True) 0 [1, 2, 3]) = Panicked \<and>
   attempts (HandleDNSRequest demo_extern
      (demo_proxy [''://nowhere'', ''https://good.test/dns-query''] True) 0 [1, 2, 3]) = [] \<and>
   network_after (HandleDNSRequest demo_extern
      (demo_proxy [''://nowhere'', ''https://good.test/dns-query''] True) 0 [1, 2, 3]) = 0"
  by (simp add: demo_eval)

text \<open>
  C10, amended. When the loop reaches an upstream whose request cannot be built (every
  earlier upstream was called and rejected), the construction error is dropped and the
  handler panics on line 70, where it sets a header of the \<open>nil\<close> request, before
  the HTTP client is invoked. The calls made are those of the earlier upstreams only:
  the upstream itself is not treated as failed and no later upstream is tried. Nothing
  is logged and nothing is written to the client.
\<close>

theorem unbuildable_request_panics:
  assumes pack: "Pack ex r = Inr q"
    and j: "j < length (upstreamURLs p)"
    and bad: "url_Parse_error ex (upstreamURLs p ! j) = Some e"
    and built: "\<forall>i<j. url_Parse_error ex (upstreamURLs p ! i) = None"
    and rejected: "\<forall>i<j. \<not> accepted (call_each (client p) q (upstreamURLs p) w ! i)"
  shows "outcome (HandleDNSRequest ex p w r) = Panicked \<and>
    attempts (HandleDNSRequest ex p w r) =
      zip (map (doh_request q) (take j (upstreamURLs p)))
          (take j (call_each (client p) q (upstreamURLs p) w)) \<and>
    map (URL \<circ> fst) (attempts (HandleDNSRequest ex p w r)) = take j (upstreamURLs p) \<and>
    length (attempts (HandleDNSRequest ex p w r)) = j \<and>
    written (HandleDNSRequest ex p w r) = [] \<and>
    logged (HandleDNSRequest ex p w r) = []"
proof -
  let ?us = "upstreamURLs p"
  let ?rs = "call_each (client p) q ?us w"
  let ?h = "HandleDNSRequest ex p w r"
  let ?tr = "zip (map (doh_request q) (take j ?us)) (take j ?rs)"
  have rejected': "\<forall>i<j. \<not> accepted (call_each (client p) q ?us (network (initial w)) ! i)"
    using rejected by (simp add: initial_def)
  from loop_panic_at[OF j bad built rejected'] obtain st where
    loop: "upstream_loop ex (client p) q ?us (initial w) = Panic st"
    and tr: "calls st = ?tr"
    by (auto simp add: initial_def)
  note h = handled_after_panic[OF pack loop]
  have len: "length ?tr = j"
    using j by (simp add: call_each_length)
  have "map fst ?tr = map (doh_request q) (take j ?us)"
    using j by (simp add: call_each_length)
  then have "map URL (map fst ?tr) = map URL (map (doh_request q) (take j ?us))"
    by simp
  then have urls: "map (URL \<circ> fst) ?tr = take j ?us"
    by (simp add: doh_request_fields comp_def)
  from h tr len urls show ?thesis by simp
qed

text \<open>
  C10 on the test double: the second URL of three does not parse; only the first
  upstream is called, and the third, which would answer, is never tried.
\<close>

theorem unbuildable_request_panics_witness:
  "outcome (HandleDNSRequest demo_extern
      (demo_proxy [''https://bad.invalid/dns-query'', ''://nowhere'',
                   ''https://good.test/dns-query''] True) 0 [1, 2, 3]) = Panicked \<and>
   map (URL \<circ> fst) (attempts (HandleDNSRequest demo_extern
      (demo_proxy [''https://bad.invalid/dns-query'', ''://nowhere'',
                   ''https://good.test/dns-query''] True) 0 [1, 2, 3])) =
     [''https://bad.invalid/dns-query''] \<and>
   written (HandleDNSRequest demo_extern
      (demo_proxy [''https://bad.invalid/dns-query'', ''://nowhere'',
                   ''https://good.test/dns-query''] True) 0 [1, 2, 3]) = []"
proof -
  let ?p = "demo_proxy [''https://bad.invalid/dns-query'', ''://nowhere'',
                        ''https://good.test/dns-query''] True"
  have pack: "Pack demo_extern [1, 2, 3] = Inr [1, 2, 3]"
    by (simp add: demo_extern_def)
  have j: "1 < length (upstreamURLs ?p)"
    by (simp add: demo_proxy_def NewDoHProxy_def)
  have bad: "url_Parse_error demo_extern (upstreamURLs ?p ! 1) = Some ''missing protocol scheme''"
    by (simp add: demo_extern_def demo_proxy_def NewDoHProxy_def)
  have built: "\<forall>i<1. url_Parse_error demo_extern (upstreamURLs ?p ! i) = None"
    by (simp add: demo_extern_def demo_proxy_def NewDoHProxy_def)
  have rejected: "\<forall>i<1. \<not> accepted (call_each (client ?p) [1, 2, 3] (upstreamURLs ?p) 0 ! i)"
    by (simp add: demo_proxy_def NewDoHProxy_def demo_client_def doh_request_def Header_Set_def
        accepted_def)
  note t = unbuildable_request_panics[OF pack j bad built rejected]
  from t have "outcome (HandleDNSRequest demo_extern ?p 0 [1, 2, 3]) = Panicked \<and>
    map (URL \<circ> fst) (attempts (HandleDNSRequest demo_extern ?p 0 [1, 2, 3])) =
      take 1 (upstreamURLs ?p) \<and>
    written (HandleDNSRequest demo_extern ?p 0 [1, 2, 3]) = []" by blast
  then show ?thesis by (simp add: demo_proxy_def NewDoHProxy_def)
qed

end
